theory Spec2Isabelle
  imports Main "HOL-Library.Word"
begin

section \<open>Bytes and the configuration module\<close>

text \<open>
  The session code of \<^verbatim>\<open>audio_manager.py\<close> works on Python \<^verbatim>\<open>bytes\<close>
  values. A byte is an 8-bit word, a bytes value a list of them.
\<close>

type_synonym byte = "8 word"
type_synonym bytes = "byte list"

text \<open>The dataclass \<^verbatim>\<open>AudioConfig\<close> (lines 19-26).\<close>

record AudioConfig =
  format :: string
  bit_size :: nat
  channels :: nat
  sample_rate :: nat
  chunk :: nat

text \<open>
  The module \<^verbatim>\<open>config\<close> as far as the session reads it. The attribute
  \<^verbatim>\<open>start_session_req\<close> is a dictionary of which only the keys are inspected
  (\<^verbatim>\<open>'tts' not in config.start_session_req\<close>); \<open>None\<close> stands for a module without
  the attribute (\<^verbatim>\<open>hasattr\<close> is false).
\<close>

record config_module =
  start_session_req :: "string list option"
  input_audio_config :: AudioConfig
  output_audio_config :: AudioConfig

text \<open>
  The negation of the test on line 134: the module has the attribute and the dictionary has
  the key \<^verbatim>\<open>tts\<close>, that is, the session was configured to ask for an uncompressed
  reply stream.
\<close>

definition tts_configured :: "config_module \<Rightarrow> bool" where
  "tts_configured cfg =
     (case start_session_req cfg of None \<Rightarrow> False | Some ks \<Rightarrow> ''tts'' \<in> set ks)"

section \<open>Format detection\<close>

text \<open>The byte literals \<^verbatim>\<open>b'OggS'\<close>, \<^verbatim>\<open>b'\x1A\x45\xDF\xA3'\<close> and \<^verbatim>\<open>b'OpusHead'\<close>.\<close>

definition OggS :: bytes where
  "OggS = [0x4F, 0x67, 0x67, 0x53]"

definition EBML :: bytes where
  "EBML = [0x1A, 0x45, 0xDF, 0xA3]"

definition OpusHead :: bytes where
  "OpusHead = [0x4F, 0x70, 0x75, 0x73, 0x48, 0x65, 0x61, 0x64]"

text \<open>Python's \<^verbatim>\<open>needle in hay\<close> on bytes: \<open>needle\<close> occurs as a contiguous slice.\<close>

fun bytes_in :: "bytes \<Rightarrow> bytes \<Rightarrow> bool" where
  "bytes_in needle [] = (needle = [])"
| "bytes_in needle (b # hay) =
     (take (length needle) (b # hay) = needle \<or> bytes_in needle hay)"

text \<open>
  \<^verbatim>\<open>DialogSession._detect_audio_format\<close> (lines 116-139). Slices \<^verbatim>\<open>audio_data[:n]\<close>
  never raise in Python; they are \<open>take n\<close>.
\<close>

definition detect_audio_format :: "config_module \<Rightarrow> bytes \<Rightarrow> string" where
  "detect_audio_format cfg audio_data =
     (if length audio_data < 4 then ''pcm''
      else if take 4 audio_data = OggS then ''ogg''
      else if take 4 audio_data = EBML then ''ogg''
      else if bytes_in OpusHead (take 64 audio_data) then ''ogg''
      else if \<not> tts_configured cfg then ''ogg''
      else ''pcm'')"

section \<open>The external audio library\<close>

text \<open>
  Decoding and normalising are done by the third-party library \<^verbatim>\<open>pydub\<close>, which is not
  part of the repository. An \<^verbatim>\<open>AudioSegment\<close> is known to the session through the four
  attributes it reads (lines 165-170).
\<close>

record AudioSegment =
  frame_rate :: nat
  seg_channels :: nat
  sample_width :: nat
  raw_data :: bytes

text \<open>
  The four library calls of lines 157-164, taken as parameters. Each of them may raise,
  which is \<open>None\<close>: all four stand inside the \<^verbatim>\<open>try\<close> of line 155, whose handler
  catches every \<^verbatim>\<open>Exception\<close>. They are functions of their arguments: the same bytes
  decode to the same result.
\<close>

record pydub =
  from_file :: "bytes \<Rightarrow> AudioSegment option"
  set_frame_rate :: "AudioSegment \<Rightarrow> nat \<Rightarrow> AudioSegment option"
  set_channels :: "AudioSegment \<Rightarrow> nat \<Rightarrow> AudioSegment option"
  set_sample_width :: "AudioSegment \<Rightarrow> nat \<Rightarrow> AudioSegment option"

text \<open>
  What the library's documentation promises of the three conversions: the result carries the
  requested parameter and keeps the parameters set before. Used as a hypothesis only.
\<close>

definition pydub_contract :: "pydub \<Rightarrow> bool" where
  "pydub_contract lib \<longleftrightarrow>
     (\<forall>a r a'. set_frame_rate lib a r = Some a' \<longrightarrow> frame_rate a' = r)
   \<and> (\<forall>a c a'. set_channels lib a c = Some a' \<longrightarrow>
          seg_channels a' = c \<and> frame_rate a' = frame_rate a)
   \<and> (\<forall>a w a'. set_sample_width lib a w = Some a' \<longrightarrow>
          sample_width a' = w \<and> seg_channels a' = seg_channels a
          \<and> frame_rate a' = frame_rate a)"

section \<open>The session object\<close>

text \<open>
  One call of \<^verbatim>\<open>AudioSegment.from_file\<close> as the session makes it: the loop variable
  \<^verbatim>\<open>attempt_pages\<close>, the page count at that moment and the bytes handed over.
\<close>

record decode_call =
  call_window :: nat
  call_pages :: nat
  call_data :: bytes

text \<open>
  The fields of \<^verbatim>\<open>DialogSession\<close> that the modelled methods read or write (lines
  81-99). \<^verbatim>\<open>audio_queue\<close> is the \<^verbatim>\<open>queue.Queue\<close>, oldest chunk first.
  \<open>decode_calls\<close> is not a field of the Python object: it records, in order, the calls of
  the decode primitive made so far, so that statements about which calls are made can be
  written down.
\<close>

record DialogSession =
  output_config :: AudioConfig
  is_running :: bool
  is_session_finished :: bool
  is_recording :: bool
  is_playing :: bool
  audio_queue :: "bytes list"
  ogg_buffer :: bytes
  ogg_pages_count :: nat
  decode_calls :: "decode_call list"

section \<open>The streaming container decoder\<close>

definition min_pages :: nat where
  "min_pages = 3"

definition max_pages :: nat where
  "max_pages = 8"

text \<open>
  The body of the \<^verbatim>\<open>try\<close> (lines 157-165): decode, set the frame rate, the channels
  and the sample width of two bytes, read \<^verbatim>\<open>raw_data\<close>. \<open>None\<close> when any step raises.
\<close>

definition try_decode :: "pydub \<Rightarrow> AudioConfig \<Rightarrow> bytes \<Rightarrow> bytes option" where
  "try_decode lib cfg buf =
     Option.bind (from_file lib buf) (\<lambda>audio.
     Option.bind (set_frame_rate lib audio (sample_rate cfg)) (\<lambda>audio.
     Option.bind (set_channels lib audio (channels cfg)) (\<lambda>audio.
     Option.bind (set_sample_width lib audio 2) (\<lambda>audio.
     Some (raw_data audio)))))"

text \<open>
  The \<^verbatim>\<open>for attempt_pages in range(...)\<close> loop (lines 154-185) over the remaining
  values of \<^verbatim>\<open>attempt_pages\<close>. A success clears the accumulator and returns; a failure
  goes on to the next value without touching the accumulator.
\<close>

fun decode_attempts ::
  "pydub \<Rightarrow> nat list \<Rightarrow> DialogSession \<Rightarrow> bytes option \<times> DialogSession" where
  "decode_attempts lib [] s = (None, s)"
| "decode_attempts lib (attempt_pages # rest) s =
     (let s1 = s\<lparr>decode_calls := decode_calls s @
                 [\<lparr>call_window = attempt_pages, call_pages = ogg_pages_count s,
                   call_data = ogg_buffer s\<rparr>]\<rparr>
      in case try_decode lib (output_config s1) (ogg_buffer s1) of
           Some pcm_data \<Rightarrow> (Some pcm_data, s1\<lparr>ogg_buffer := [], ogg_pages_count := 0\<rparr>)
         | None \<Rightarrow> decode_attempts lib rest s1)"

text \<open>
  \<^verbatim>\<open>DialogSession._process_ogg_stream\<close> (lines 141-197): the returned bytes and the
  session afterwards. The empty bytes value is the answer "not enough data yet".
\<close>

definition process_ogg_stream ::
  "pydub \<Rightarrow> bytes \<Rightarrow> DialogSession \<Rightarrow> bytes \<times> DialogSession" where
  "process_ogg_stream lib ogg_page s =
     (let s1 = s\<lparr>ogg_buffer := ogg_buffer s @ ogg_page,
                 ogg_pages_count := ogg_pages_count s + 1\<rparr>
      in if ogg_pages_count s1 \<ge> min_pages then
           (case decode_attempts lib
                   [min_pages ..< min (ogg_pages_count s1 + 1) (max_pages + 1)] s1 of
              (Some pcm_data, s2) \<Rightarrow> (pcm_data, s2)
            | (None, s2) \<Rightarrow>
                if ogg_pages_count s2 \<ge> max_pages \<or> length (ogg_buffer s2) > 50000
                then ([], s2\<lparr>ogg_buffer := [], ogg_pages_count := 0\<rparr>)
                else ([], s2))
         else ([], s1))"

text \<open>\<^verbatim>\<open>_convert_ogg_to_pcm\<close> (lines 199-201) only forwards.\<close>

definition convert_ogg_to_pcm ::
  "pydub \<Rightarrow> bytes \<Rightarrow> DialogSession \<Rightarrow> bytes \<times> DialogSession" where
  "convert_ogg_to_pcm lib ogg_data s = process_ogg_stream lib ogg_data s"

text \<open>
  The same method with the loop replaced by one decode of the whole buffer: the reading of
  the loop that is compared with the code below. It keeps no record of its decode call.
\<close>

definition process_ogg_stream_single ::
  "pydub \<Rightarrow> bytes \<Rightarrow> DialogSession \<Rightarrow> bytes \<times> DialogSession" where
  "process_ogg_stream_single lib ogg_page s =
     (let s1 = s\<lparr>ogg_buffer := ogg_buffer s @ ogg_page,
                 ogg_pages_count := ogg_pages_count s + 1\<rparr>
      in if ogg_pages_count s1 \<ge> min_pages then
           (case try_decode lib (output_config s1) (ogg_buffer s1) of
              Some pcm_data \<Rightarrow> (pcm_data, s1\<lparr>ogg_buffer := [], ogg_pages_count := 0\<rparr>)
            | None \<Rightarrow>
                if ogg_pages_count s1 \<ge> max_pages \<or> length (ogg_buffer s1) > 50000
                then ([], s1\<lparr>ogg_buffer := [], ogg_pages_count := 0\<rparr>)
                else ([], s1))
         else ([], s1))"

text \<open>A sequence of calls, one per arriving page.\<close>

fun feed_all :: "pydub \<Rightarrow> bytes list \<Rightarrow> DialogSession \<Rightarrow> DialogSession" where
  "feed_all lib [] s = s"
| "feed_all lib (p # ps) s = feed_all lib ps (snd (process_ogg_stream lib p s))"

text \<open>The session as \<^verbatim>\<open>__init__\<close> leaves it (lines 81-99).\<close>

definition new_session :: "config_module \<Rightarrow> DialogSession" where
  "new_session cfg =
     \<lparr>output_config = output_audio_config cfg, is_running = True,
      is_session_finished = False, is_recording = True, is_playing = True,
      audio_queue = [], ogg_buffer = [], ogg_pages_count = 0, decode_calls = []\<rparr>"

section \<open>Auxiliary notions for the statements\<close>

text \<open>The session right after lines 144-145: the page appended and counted.\<close>

definition appended :: "DialogSession \<Rightarrow> bytes \<Rightarrow> DialogSession" where
  "appended s ogg_page =
     s\<lparr>ogg_buffer := ogg_buffer s @ ogg_page, ogg_pages_count := ogg_pages_count s + 1\<rparr>"

text \<open>The values \<^verbatim>\<open>attempt_pages\<close> runs through (line 154), for the session given.\<close>

definition windows :: "DialogSession \<Rightarrow> nat list" where
  "windows s = [min_pages ..< min (ogg_pages_count s + 1) (max_pages + 1)]"

text \<open>The record of a decode call made in session \<open>s\<close> with loop variable \<open>w\<close>.\<close>

definition logged :: "DialogSession \<Rightarrow> nat \<Rightarrow> decode_call" where
  "logged s w = \<lparr>call_window = w, call_pages = ogg_pages_count s, call_data = ogg_buffer s\<rparr>"

text \<open>The decode calls made by one call of \<^verbatim>\<open>_process_ogg_stream\<close>, in order.\<close>

definition attempts_made :: "pydub \<Rightarrow> bytes \<Rightarrow> DialogSession \<Rightarrow> decode_call list" where
  "attempts_made lib ogg_page s =
     drop (length (decode_calls s)) (decode_calls (snd (process_ogg_stream lib ogg_page s)))"

section \<open>Concrete inputs\<close>

text \<open>
  The module \<^verbatim>\<open>config.py\<close> as it stands: the \<^verbatim>\<open>tts\<close> entry is commented out, and
  \<^verbatim>\<open>pyaudio.paInt16\<close> is the constant 8.
\<close>

definition default_config :: config_module where
  "default_config =
     \<lparr>start_session_req = Some [''dialog''],
      input_audio_config =
        \<lparr>format = ''pcm'', bit_size = 8, channels = 1, sample_rate = 16000, chunk = 3200\<rparr>,
      output_audio_config =
        \<lparr>format = ''pcm'', bit_size = 8, channels = 1, sample_rate = 24000, chunk = 3200\<rparr>\<rparr>"

text \<open>
  Two stand-ins for the audio library, for evaluating the session on concrete inputs. The
  first decodes a buffer that starts with the OGG magic and has at least 12 bytes, to the
  bytes after the magic; its conversions only set the parameter. The second decodes nothing.
\<close>

definition stub_pydub :: pydub where
  "stub_pydub =
     \<lparr>from_file = (\<lambda>buf. if take 4 buf = OggS \<and> 12 \<le> length buf
                          then Some \<lparr>frame_rate = 48000, seg_channels = 2, sample_width = 4,
                                     raw_data = drop 4 buf\<rparr>
                          else None),
      set_frame_rate = (\<lambda>a r. Some (a\<lparr>frame_rate := r\<rparr>)),
      set_channels = (\<lambda>a c. Some (a\<lparr>seg_channels := c\<rparr>)),
      set_sample_width = (\<lambda>a w. Some (a\<lparr>sample_width := w\<rparr>))\<rparr>"

definition refusing_pydub :: pydub where
  "refusing_pydub =
     \<lparr>from_file = (\<lambda>buf. None),
      set_frame_rate = (\<lambda>a r. Some (a\<lparr>frame_rate := r\<rparr>)),
      set_channels = (\<lambda>a c. Some (a\<lparr>seg_channels := c\<rparr>)),
      set_sample_width = (\<lambda>a w. Some (a\<lparr>sample_width := w\<rparr>))\<rparr>"

section \<open>Dispatch of server responses\<close>

text \<open>
  A response is the dictionary that \<^verbatim>\<open>RealtimeDialogClient.receive_server_response\<close>
  hands over (the client lives in the module \<^verbatim>\<open>realtime_dialog_client\<close>): keys are
  strings, values are Python values of which the session tells apart strings, bytes and
  integers.
\<close>

datatype pyval = PyStr string | PyBytes bytes | PyInt int | PyNone | PyOther

type_synonym response = "(string \<times> pyval) list"

text \<open>
  The exceptions that \<^verbatim>\<open>handle_server_response\<close> raises: the \<^verbatim>\<open>KeyError\<close> of a
  subscript with a missing key, and the \<^verbatim>\<open>Exception("...")\<close> of line 241.
\<close>

datatype exn = KeyError string | ServerError

text \<open>\<^verbatim>\<open>isinstance(response.get('payload_msg'), bytes)\<close>, with the bytes when it holds.\<close>

fun payload_bytes :: "pyval option \<Rightarrow> bytes option" where
  "payload_bytes (Some (PyBytes b)) = Some b"
| "payload_bytes v = None"

text \<open>
  The loop of lines 234-238, \<^verbatim>\<open>while not self.audio_queue.empty(): get_nowait()\<close>, with
  no other thread touching the queue meanwhile: the chunks are taken out one by one.
\<close>

fun drain_queue :: "bytes list \<Rightarrow> bytes list" where
  "drain_queue [] = []"
| "drain_queue (item # queue) = drain_queue queue"

text \<open>
  \<^verbatim>\<open>DialogSession.handle_server_response\<close> (lines 209-241). \<open>Inl\<close> is a raised
  exception; every \<^verbatim>\<open>raise\<close> of the method, and every subscript that can raise
  \<^verbatim>\<open>KeyError\<close>, comes before any change of the session, so an exception leaves the
  session as it was.
\<close>

definition handle_server_response ::
  "pydub \<Rightarrow> config_module \<Rightarrow> response \<Rightarrow> DialogSession \<Rightarrow> exn + DialogSession" where
  "handle_server_response lib cfg response s =
     (if response = [] then Inr s
      else case map_of response ''message_type'' of
        None \<Rightarrow> Inl (KeyError ''message_type'')
      | Some message_type \<Rightarrow>
          if message_type = PyStr ''SERVER_ACK''
             \<and> payload_bytes (map_of response ''payload_msg'') \<noteq> None
          then
            (let audio_data = the (payload_bytes (map_of response ''payload_msg''));
                 audio_format = detect_audio_format cfg audio_data;
                 (audio_data, s1) =
                    (if audio_format = ''ogg'' then convert_ogg_to_pcm lib audio_data s
                     else (audio_data, s))
             in if audio_format = ''ogg'' \<and> length audio_data = 0 then Inr s1
                else if length audio_data > 0
                then Inr (s1\<lparr>audio_queue := audio_queue s1 @ [audio_data]\<rparr>)
                else Inr s1)
          else if message_type = PyStr ''SERVER_FULL_RESPONSE'' then
            (case map_of response ''event'' of
               None \<Rightarrow> Inl (KeyError ''event'')
             | Some event \<Rightarrow>
                 if event = PyInt 450 then
                   (case map_of response ''session_id'' of
                      None \<Rightarrow> Inl (KeyError ''session_id'')
                    | Some session_id \<Rightarrow>
                        Inr (s\<lparr>audio_queue := drain_queue (audio_queue s)\<rparr>))
                 else Inr s)
          else if message_type = PyStr ''SERVER_ERROR'' then
            (case map_of response ''payload_msg'' of
               None \<Rightarrow> Inl (KeyError ''payload_msg'')
             | Some payload_msg \<Rightarrow> Inl ServerError)
          else Inr s)"

section \<open>The receive loop and the capture loop\<close>

text \<open>
  What one \<^verbatim>\<open>await self.client.receive_server_response()\<close> brings: a response, an
  exception of the transport, or the cancellation of the task.
\<close>

datatype received = Frame response | ReceiveRaises | ReceiveCancelled

text \<open>Where a loop stands after the events given: still going round, or left.\<close>

datatype activity = Looping | Stopped

text \<open>The test of line 254.\<close>

definition is_finish_event :: "response \<Rightarrow> bool" where
  "is_finish_event response =
     (case map_of response ''event'' of
        None \<Rightarrow> False
      | Some event \<Rightarrow> event = PyInt 152 \<or> event = PyInt 153)"

text \<open>
  \<^verbatim>\<open>DialogSession.receive_loop\<close> (lines 249-261) run on what the transport delivers, in
  order. Both handlers only print, so any exception ends the loop; when nothing more is
  delivered the loop is suspended in its \<^verbatim>\<open>await\<close>.
\<close>

fun receive_loop ::
  "pydub \<Rightarrow> config_module \<Rightarrow> received list \<Rightarrow> DialogSession \<Rightarrow> activity \<times> DialogSession"
  where
  "receive_loop lib cfg [] s = (Looping, s)"
| "receive_loop lib cfg (ReceiveCancelled # rest) s = (Stopped, s)"
| "receive_loop lib cfg (ReceiveRaises # rest) s = (Stopped, s)"
| "receive_loop lib cfg (Frame response # rest) s =
     (case handle_server_response lib cfg response s of
        Inl e \<Rightarrow> (Stopped, s)
      | Inr s1 \<Rightarrow>
          if is_finish_event response then (Stopped, s1\<lparr>is_session_finished := True\<rparr>)
          else receive_loop lib cfg rest s1)"

text \<open>
  One round of the capture loop (lines 269-277): the chunk was read and sent, or some call in
  the \<^verbatim>\<open>try\<close> raised an \<^verbatim>\<open>Exception\<close> (caught, the loop goes on), or the task was
  cancelled in one of its \<^verbatim>\<open>await\<close>s.
\<close>

datatype capture_round = Forwarded bytes | RoundRaises | RoundCancelled

text \<open>
  The loop of \<^verbatim>\<open>DialogSession.process_microphone_input\<close> (lines 268-277), the input
  stream opened, on a session whose flags nobody changes meanwhile: where the loop stands
  after the rounds given, and the chunks sent to the service. The loop tests
  \<^verbatim>\<open>self.is_recording\<close> before every round.
\<close>

fun process_microphone_input ::
  "capture_round list \<Rightarrow> DialogSession \<Rightarrow> activity \<times> bytes list" where
  "process_microphone_input [] s = (if is_recording s then Looping else Stopped, [])"
| "process_microphone_input (r # rest) s =
     (if \<not> is_recording s then (Stopped, [])
      else case r of
        Forwarded audio_data \<Rightarrow>
          (let (a, sent) = process_microphone_input rest s in (a, audio_data # sent))
      | RoundRaises \<Rightarrow> process_microphone_input rest s
      | RoundCancelled \<Rightarrow> (Stopped, []))"

section \<open>Starting and ending a session\<close>

text \<open>
  \<^verbatim>\<open>AudioDeviceManager\<close> (lines 29-68) as far as \<^verbatim>\<open>cleanup\<close> reads it: which of its
  two streams have been opened. The calls on the PyAudio objects are recorded as events and
  taken to return.
\<close>

datatype stream = InputStream | OutputStream

record AudioDeviceManager =
  input_stream :: "stream option"
  output_stream :: "stream option"

datatype device_event = StopStream stream | CloseStream stream | Terminate

text \<open>\<^verbatim>\<open>AudioDeviceManager.cleanup\<close> (lines 62-68): the device calls it makes, in order.\<close>

definition cleanup :: "AudioDeviceManager \<Rightarrow> device_event list" where
  "cleanup dev =
     concat (map (\<lambda>stream. case stream of
                              Some h \<Rightarrow> [StopStream h, CloseStream h]
                            | None \<Rightarrow> [])
                 [input_stream dev, output_stream dev])
     @ [Terminate]"

text \<open>
  How an awaited call ends: it returns, it raises an \<^verbatim>\<open>Exception\<close>, or the task is
  cancelled in it (\<^verbatim>\<open>CancelledError\<close>, which \<^verbatim>\<open>except Exception\<close> does not catch).
\<close>

datatype outcome = Returns | Raises | Cancelled

text \<open>What \<^verbatim>\<open>start\<close> does that is visible outside, in order.\<close>

datatype session_event =
  Connect | CreateTasks | FinishSession | FinishConnection | Pause | CloseClient | ReadLogid
  | Device device_event

text \<open>
  The statements of the \<^verbatim>\<open>try\<close> body: a call with the way it ends, or a polling loop
  \<^verbatim>\<open>while flag: await asyncio.sleep(0.1)\<close> with, for every round, the value of the flag
  read and the way the sleep ends.
\<close>

datatype statement = Call session_event outcome | Poll "(bool \<times> outcome) list"

text \<open>
  A polling loop on the rounds given: \<open>None\<close> when the flag has stayed set through all of
  them, so that the loop is still going round.
\<close>

fun poll_while :: "(bool \<times> outcome) list \<Rightarrow> outcome option" where
  "poll_while [] = None"
| "poll_while ((flag, slept) # rest) =
     (if \<not> flag then Some Returns
      else case slept of Returns \<Rightarrow> poll_while rest | e \<Rightarrow> Some e)"

text \<open>
  Statements in sequence: the first one that does not return ends the sequence with its
  outcome; \<open>None\<close> when a polling loop is never left.
\<close>

fun run_statements :: "statement list \<Rightarrow> outcome option \<times> session_event list" where
  "run_statements [] = (Some Returns, [])"
| "run_statements (Call ev out # rest) =
     (case out of
        Returns \<Rightarrow> (let (r, evs) = run_statements rest in (r, ev # evs))
      | e \<Rightarrow> (Some e, [ev]))"
| "run_statements (Poll rounds # rest) =
     (case poll_while rounds of
        None \<Rightarrow> (None, [])
      | Some Returns \<Rightarrow> run_statements rest
      | Some e \<Rightarrow> (Some e, []))"

text \<open>
  What the surroundings do during one run of \<^verbatim>\<open>start\<close>: how each awaited call ends, what
  the two polling loops read (\<^verbatim>\<open>is_running\<close>, set by the signal handler, and
  \<^verbatim>\<open>is_session_finished\<close>, set by the receive loop), and which streams are open when
  \<^verbatim>\<open>cleanup\<close> runs.
\<close>

record start_run =
  connect_outcome :: outcome
  running_rounds :: "(bool \<times> outcome) list"
  finish_session_outcome :: outcome
  finished_rounds :: "(bool \<times> outcome) list"
  finish_connection_outcome :: outcome
  pause_outcome :: outcome
  close_outcome :: outcome
  logid_outcome :: outcome
  device_at_exit :: AudioDeviceManager

text \<open>The \<^verbatim>\<open>try\<close> body of \<^verbatim>\<open>start\<close> (lines 282-295).\<close>

definition start_body :: "start_run \<Rightarrow> statement list" where
  "start_body run =
     [Call Connect (connect_outcome run),
      Call CreateTasks Returns,
      Poll (running_rounds run),
      Call FinishSession (finish_session_outcome run),
      Poll (map (\<lambda>(finished, slept). (\<not> finished, slept)) (finished_rounds run)),
      Call FinishConnection (finish_connection_outcome run),
      Call Pause (pause_outcome run),
      Call CloseClient (close_outcome run),
      Call ReadLogid (logid_outcome run)]"

text \<open>
  \<^verbatim>\<open>DialogSession.start\<close> (lines 279-299): how the call ends and what it did, or \<open>None\<close>
  when it never ends. An \<^verbatim>\<open>Exception\<close> is caught and printed (line 296), a cancellation
  passes through; the \<^verbatim>\<open>finally\<close> clause runs \<^verbatim>\<open>cleanup\<close> in each case.
\<close>

definition start :: "start_run \<Rightarrow> (outcome \<times> session_event list) option" where
  "start run =
     (case run_statements (start_body run) of
        (None, evs) \<Rightarrow> None
      | (Some Returns, evs) \<Rightarrow>
          Some (Returns, evs @ map Device (cleanup (device_at_exit run)))
      | (Some Raises, evs) \<Rightarrow>
          Some (Returns, evs @ map Device (cleanup (device_at_exit run)))
      | (Some Cancelled, evs) \<Rightarrow>
          Some (Cancelled, evs @ map Device (cleanup (device_at_exit run))))"

text \<open>The device calls among the events, in order.\<close>

fun device_events :: "session_event list \<Rightarrow> device_event list" where
  "device_events [] = []"
| "device_events (Device d # evs) = d # device_events evs"
| "device_events (ev # evs) = device_events evs"

section \<open>Concrete frames and runs\<close>

text \<open>A flush frame and an error frame as the service sends them.\<close>

definition flush_frame :: response where
  "flush_frame =
     [(''message_type'', PyStr ''SERVER_FULL_RESPONSE''), (''event'', PyInt 450),
      (''session_id'', PyStr ''s-1''), (''payload_msg'', PyOther)]"

definition error_frame :: response where
  "error_frame =
     [(''message_type'', PyStr ''SERVER_ERROR''), (''payload_msg'', PyStr ''upstream failure'')]"

text \<open>
  Three runs of \<^verbatim>\<open>start\<close>: one in which every call returns, the stop signal is seen in
  the second round and the finished flag in the second round; one in which
  \<^verbatim>\<open>finish_session\<close> raises; one cancelled in the first sleep, before the capture task
  has opened the input stream.
\<close>

definition normal_run :: start_run where
  "normal_run =
     \<lparr>connect_outcome = Returns, running_rounds = [(True, Returns), (False, Returns)],
      finish_session_outcome = Returns,
      finished_rounds = [(False, Returns), (True, Returns)],
      finish_connection_outcome = Returns, pause_outcome = Returns,
      close_outcome = Returns, logid_outcome = Returns,
      device_at_exit = \<lparr>input_stream = Some InputStream, output_stream = Some OutputStream\<rparr>\<rparr>"

definition failing_run :: start_run where
  "failing_run = normal_run\<lparr>finish_session_outcome := Raises\<rparr>"

definition cancelled_run :: start_run where
  "cancelled_run =
     normal_run\<lparr>running_rounds := [(True, Cancelled)],
       device_at_exit := \<lparr>input_stream = None, output_stream = Some OutputStream\<rparr>\<rparr>"

section \<open>Properties of the format detection\<close>

lemma bytes_in_iff: "bytes_in needle hay \<longleftrightarrow> (\<exists>ps ss. hay = ps @ needle @ ss)"
proof (induction hay)
  case Nil
  then show ?case by auto
next
  case (Cons b hay)
  show ?case
  proof
    assume "bytes_in needle (b # hay)"
    then consider "take (length needle) (b # hay) = needle" | "bytes_in needle hay"
      by auto
    then show "\<exists>ps ss. b # hay = ps @ needle @ ss"
    proof cases
      case 1
      then have "b # hay = [] @ needle @ drop (length needle) (b # hay)"
        by (metis append_Nil append_take_drop_id)
      then show ?thesis by blast
    next
      case 2
      with Cons.IH obtain ps ss where "hay = ps @ needle @ ss" by blast
      then have "b # hay = (b # ps) @ needle @ ss" by simp
      then show ?thesis by blast
    qed
  next
    assume "\<exists>ps ss. b # hay = ps @ needle @ ss"
    then obtain ps ss where eq: "b # hay = ps @ needle @ ss" by blast
    show "bytes_in needle (b # hay)"
    proof (cases ps)
      case Nil
      with eq have "take (length needle) (b # hay) = needle" by simp
      then show ?thesis by simp
    next
      case (Cons p ps')
      with eq have "hay = ps' @ needle @ ss" by simp
      with Cons.IH have "bytes_in needle hay" by blast
      then show ?thesis by simp
    qed
  qed
qed


text \<open>
  C4. \<^verbatim>\<open>_detect_audio_format\<close> answers \<^verbatim>\<open>"ogg"\<close> (the container format) for every
  input whose first four bytes are the OGG magic or the WebM/EBML magic, and for every input
  in whose first 64 bytes \<^verbatim>\<open>OpusHead\<close> occurs, whatever the configuration module says
  about \<^verbatim>\<open>tts\<close>.
\<close>

theorem detect_container_on_markers:
  assumes "take 4 audio_data = OggS \<or> take 4 audio_data = EBML
           \<or> (\<exists>ps ss. take 64 audio_data = ps @ OpusHead @ ss)"
  shows "detect_audio_format cfg audio_data = ''ogg''"
proof -
  from assms consider (ogg) "take 4 audio_data = OggS" | (ebml) "take 4 audio_data = EBML"
    | (opus) "bytes_in OpusHead (take 64 audio_data)"
    by (auto simp: bytes_in_iff)
  then show ?thesis
  proof cases
    case ogg
    then have "length (take 4 audio_data) = 4" by (simp add: OggS_def)
    then have "\<not> length audio_data < 4" by auto
    with ogg show ?thesis by (simp add: detect_audio_format_def)
  next
    case ebml
    then have "length (take 4 audio_data) = 4" by (simp add: EBML_def)
    then have "\<not> length audio_data < 4" by auto
    with ebml show ?thesis by (simp add: detect_audio_format_def)
  next
    case opus
    then obtain ps ss where "take 64 audio_data = ps @ OpusHead @ ss"
      by (auto simp: bytes_in_iff)
    then have "length (take 64 audio_data) \<ge> 8"
      by (simp add: OpusHead_def)
    then have "\<not> length audio_data < 4" by auto
    with opus show ?thesis by (simp add: detect_audio_format_def)
  qed
qed

theorem detect_container_on_markers_witness:
  "detect_audio_format (default_config\<lparr>start_session_req := Some [''tts'', ''dialog'']\<rparr>)
     (OggS @ replicate 60 0) = ''ogg''
   \<and> detect_audio_format (default_config\<lparr>start_session_req := Some [''dialog'']\<rparr>)
     (OggS @ replicate 60 0) = ''ogg''
   \<and> detect_audio_format (default_config\<lparr>start_session_req := Some [''tts'']\<rparr>)
     ([0, 0, 0, 0, 0] @ OpusHead) = ''ogg''"
proof -
  have a: "take 4 (OggS @ replicate 60 0) = OggS"
    by (simp add: OggS_def)
  have "bytes_in OpusHead (take 64 ([0, 0, 0, 0, 0] @ OpusHead))"
    by (simp add: OpusHead_def)
  then have b: "\<exists>ps ss. take 64 ([0, 0, 0, 0, 0] @ OpusHead) = ps @ OpusHead @ ss"
    by (simp only: bytes_in_iff)
  show ?thesis
    using detect_container_on_markers [of "OggS @ replicate 60 0"] a
      detect_container_on_markers [of "[0, 0, 0, 0, 0] @ OpusHead"] b
    by simp
qed

text \<open>
  C5. On an input of at least four bytes that starts with neither magic and has no
  \<^verbatim>\<open>OpusHead\<close> in its first 64 bytes, the answer is \<^verbatim>\<open>"pcm"\<close> exactly when
  \<^verbatim>\<open>tts\<close> is configured, and \<^verbatim>\<open>"ogg"\<close> otherwise.
\<close>

theorem detect_without_markers:
  assumes "4 \<le> length audio_data"
    and "take 4 audio_data \<noteq> OggS" and "take 4 audio_data \<noteq> EBML"
    and "\<not> (\<exists>ps ss. take 64 audio_data = ps @ OpusHead @ ss)"
  shows "(detect_audio_format cfg audio_data = ''pcm'' \<longleftrightarrow> tts_configured cfg)
         \<and> (\<not> tts_configured cfg \<longrightarrow> detect_audio_format cfg audio_data = ''ogg'')"
proof -
  from assms(4) have "\<not> bytes_in OpusHead (take 64 audio_data)"
    by (simp only: bytes_in_iff not_False_eq_True)
  with assms(1-3) show ?thesis
    by (simp add: detect_audio_format_def)
qed

theorem detect_without_markers_witness:
  "detect_audio_format (default_config\<lparr>start_session_req := Some [''tts'', ''dialog'']\<rparr>)
     [1, 2, 3, 4, 5] = ''pcm''
   \<and> detect_audio_format (default_config\<lparr>start_session_req := Some [''dialog'']\<rparr>)
     [1, 2, 3, 4, 5] = ''ogg''"
proof -
  have "\<not> bytes_in OpusHead (take 64 [1, 2, 3, 4, 5])"
    by (simp add: OpusHead_def)
  then have n: "\<not> (\<exists>ps ss. take 64 [1, 2, 3, 4, 5 :: byte] = ps @ OpusHead @ ss)"
    by (simp only: bytes_in_iff not_False_eq_True)
  have l: "4 \<le> length [1, 2, 3, 4, 5 :: byte]" by simp
  have o: "take 4 [1, 2, 3, 4, 5 :: byte] \<noteq> OggS" by (simp add: OggS_def)
  have e: "take 4 [1, 2, 3, 4, 5 :: byte] \<noteq> EBML" by (simp add: EBML_def)
  show ?thesis
    using detect_without_markers [OF l o e n,
        of "default_config\<lparr>start_session_req := Some [''tts'', ''dialog'']\<rparr>"]
      detect_without_markers [OF l o e n,
        of "default_config\<lparr>start_session_req := Some [''dialog'']\<rparr>"]
    by (simp add: tts_configured_def default_config_def)
qed

section \<open>Properties of the streaming container decoder\<close>

lemma decode_attempts_fail:
  "try_decode lib (output_config s) (ogg_buffer s) = None \<Longrightarrow>
   decode_attempts lib ws s = (None, s\<lparr>decode_calls := decode_calls s @ map (logged s) ws\<rparr>)"
  by (induction ws arbitrary: s) (simp_all add: logged_def)

lemma decode_attempts_success:
  "try_decode lib (output_config s) (ogg_buffer s) = Some pcm \<Longrightarrow>
   decode_attempts lib (w # ws) s =
     (Some pcm, s\<lparr>decode_calls := decode_calls s @ [logged s w], ogg_buffer := [],
                 ogg_pages_count := 0\<rparr>)"
  by (simp add: logged_def)

lemma windows_Cons:
  "min_pages \<le> ogg_pages_count s \<Longrightarrow>
   windows s = min_pages # [Suc min_pages ..< min (ogg_pages_count s + 1) (max_pages + 1)]"
  by (simp add: windows_def min_pages_def max_pages_def upt_conv_Cons)

lemma process_small:
  "ogg_pages_count s + 1 < min_pages \<Longrightarrow>
   process_ogg_stream lib ogg_page s = ([], appended s ogg_page)"
  by (simp add: process_ogg_stream_def appended_def Let_def)

lemma process_success:
  assumes "min_pages \<le> ogg_pages_count s + 1"
    and "try_decode lib (output_config s) (ogg_buffer s @ ogg_page) = Some pcm"
  shows "process_ogg_stream lib ogg_page s =
     (pcm, (appended s ogg_page)\<lparr>decode_calls := decode_calls s @ [logged (appended s ogg_page) min_pages],
           ogg_buffer := [], ogg_pages_count := 0\<rparr>)"
proof -
  let ?s1 = "appended s ogg_page"
  have t: "try_decode lib (output_config ?s1) (ogg_buffer ?s1) = Some pcm"
    using assms(2) by (simp add: appended_def)
  have w: "windows ?s1 = min_pages # [Suc min_pages ..< min (ogg_pages_count ?s1 + 1) (max_pages + 1)]"
    using assms(1) by (intro windows_Cons) (simp add: appended_def)
  have "decode_attempts lib (windows ?s1) ?s1 =
     (Some pcm, ?s1\<lparr>decode_calls := decode_calls ?s1 @ [logged ?s1 min_pages], ogg_buffer := [],
                 ogg_pages_count := 0\<rparr>)"
    unfolding w by (rule decode_attempts_success [OF t])
  then show ?thesis
    using assms(1)
    by (simp add: process_ogg_stream_def Let_def windows_def appended_def)
qed

lemma process_failure:
  assumes "min_pages \<le> ogg_pages_count s + 1"
    and "try_decode lib (output_config s) (ogg_buffer s @ ogg_page) = None"
  shows "process_ogg_stream lib ogg_page s =
     ([], if max_pages \<le> ogg_pages_count s + 1 \<or> 50000 < length (ogg_buffer s @ ogg_page)
          then (appended s ogg_page)\<lparr>decode_calls := decode_calls s @
                   map (logged (appended s ogg_page)) (windows (appended s ogg_page)),
                 ogg_buffer := [], ogg_pages_count := 0\<rparr>
          else (appended s ogg_page)\<lparr>decode_calls := decode_calls s @
                   map (logged (appended s ogg_page)) (windows (appended s ogg_page))\<rparr>)"
proof -
  let ?s1 = "appended s ogg_page"
  have t: "try_decode lib (output_config ?s1) (ogg_buffer ?s1) = None"
    using assms(2) by (simp add: appended_def)
  have "decode_attempts lib (windows ?s1) ?s1 =
     (None, ?s1\<lparr>decode_calls := decode_calls ?s1 @ map (logged ?s1) (windows ?s1)\<rparr>)"
    by (rule decode_attempts_fail [OF t])
  then show ?thesis
    using assms(1)
    by (simp add: process_ogg_stream_def Let_def windows_def appended_def)
qed


lemma attempts_small:
  "ogg_pages_count s + 1 < min_pages \<Longrightarrow> attempts_made lib ogg_page s = []"
  by (simp add: attempts_made_def process_small appended_def)

lemma attempts_success:
  "min_pages \<le> ogg_pages_count s + 1 \<Longrightarrow>
   try_decode lib (output_config s) (ogg_buffer s @ ogg_page) = Some pcm \<Longrightarrow>
   attempts_made lib ogg_page s = [logged (appended s ogg_page) min_pages]"
  by (simp add: attempts_made_def process_success)

lemma attempts_failure:
  "min_pages \<le> ogg_pages_count s + 1 \<Longrightarrow>
   try_decode lib (output_config s) (ogg_buffer s @ ogg_page) = None \<Longrightarrow>
   attempts_made lib ogg_page s =
     map (logged (appended s ogg_page)) (windows (appended s ogg_page))"
  by (simp add: attempts_made_def process_failure)

lemma attempts_data:
  assumes "c \<in> set (attempts_made lib ogg_page s)"
  shows "call_data c = ogg_buffer s @ ogg_page \<and> call_pages c = ogg_pages_count s + 1
         \<and> min_pages \<le> ogg_pages_count s + 1 \<and> min_pages \<le> call_window c"
proof (cases "ogg_pages_count s + 1 < min_pages")
  case True
  with assms show ?thesis by (simp add: attempts_small)
next
  case False
  then have ge: "min_pages \<le> ogg_pages_count s + 1" by simp
  show ?thesis
  proof (cases "try_decode lib (output_config s) (ogg_buffer s @ ogg_page)")
    case None
    with assms ge show ?thesis
      by (auto simp: attempts_failure logged_def appended_def windows_def)
  next
    case (Some pcm)
    with assms ge show ?thesis
      by (auto simp: attempts_success logged_def appended_def)
  qed
qed

text \<open>
  C2. On a call of \<^verbatim>\<open>_process_ogg_stream\<close> in which some decode attempt succeeds, the
  returned bytes are the \<^verbatim>\<open>raw_data\<close> of the decoded audio after it was set to the
  sample rate and the channel count of the output configuration and to a sample width of two
  bytes (and carry these three parameters, if the library's conversions do what they
  promise), and afterwards the buffer is empty and the page count is 0.
\<close>

theorem feed_success:
  assumes "c \<in> set (attempts_made lib ogg_page s)"
    and "try_decode lib (output_config s) (call_data c) = Some pcm_data"
  shows "fst (process_ogg_stream lib ogg_page s) = pcm_data
       \<and> ogg_buffer (snd (process_ogg_stream lib ogg_page s)) = []
       \<and> ogg_pages_count (snd (process_ogg_stream lib ogg_page s)) = 0
       \<and> (\<exists>a a1 a2 a3.
            from_file lib (ogg_buffer s @ ogg_page) = Some a
          \<and> set_frame_rate lib a (sample_rate (output_config s)) = Some a1
          \<and> set_channels lib a1 (channels (output_config s)) = Some a2
          \<and> set_sample_width lib a2 2 = Some a3
          \<and> pcm_data = raw_data a3
          \<and> (pydub_contract lib \<longrightarrow>
                frame_rate a3 = sample_rate (output_config s)
              \<and> seg_channels a3 = channels (output_config s)
              \<and> sample_width a3 = 2))"
proof -
  from attempts_data [OF assms(1)]
  have d: "call_data c = ogg_buffer s @ ogg_page" and ge: "min_pages \<le> ogg_pages_count s + 1"
    by simp_all
  from assms(2) d
  have t: "try_decode lib (output_config s) (ogg_buffer s @ ogg_page) = Some pcm_data"
    by simp
  have r: "process_ogg_stream lib ogg_page s =
     (pcm_data, (appended s ogg_page)\<lparr>decode_calls := decode_calls s @
                   [logged (appended s ogg_page) min_pages],
                 ogg_buffer := [], ogg_pages_count := 0\<rparr>)"
    by (rule process_success [OF ge t])
  from t obtain a a1 a2 a3 where
    chain: "from_file lib (ogg_buffer s @ ogg_page) = Some a"
      "set_frame_rate lib a (sample_rate (output_config s)) = Some a1"
      "set_channels lib a1 (channels (output_config s)) = Some a2"
      "set_sample_width lib a2 2 = Some a3"
      "pcm_data = raw_data a3"
    by (auto simp: try_decode_def split: Option.bind_splits)
  have "frame_rate a3 = sample_rate (output_config s)
      \<and> seg_channels a3 = channels (output_config s) \<and> sample_width a3 = 2"
    if "pydub_contract lib"
    using that chain unfolding pydub_contract_def by metis
  with chain r show ?thesis by auto
qed

lemmas feed_eval = process_ogg_stream_def new_session_def default_config_def min_pages_def
  max_pages_def stub_pydub_def try_decode_def OggS_def Let_def attempts_made_def

theorem feed_success_witness:
  "fst (process_ogg_stream stub_pydub [4, 5, 6, 7, 8]
          (feed_all stub_pydub [OggS @ [1], [2, 3]] (new_session default_config)))
     = [1, 2, 3, 4, 5, 6, 7, 8]
   \<and> ogg_buffer (snd (process_ogg_stream stub_pydub [4, 5, 6, 7, 8]
          (feed_all stub_pydub [OggS @ [1], [2, 3]] (new_session default_config)))) = []
   \<and> ogg_pages_count (snd (process_ogg_stream stub_pydub [4, 5, 6, 7, 8]
          (feed_all stub_pydub [OggS @ [1], [2, 3]] (new_session default_config)))) = 0"
proof -
  let ?s = "feed_all stub_pydub [OggS @ [1], [2, 3]] (new_session default_config)"
  let ?c = "\<lparr>call_window = 3, call_pages = 3, call_data = OggS @ [1, 2, 3, 4, 5, 6, 7, 8]\<rparr>"
  have m: "?c \<in> set (attempts_made stub_pydub [4, 5, 6, 7, 8] ?s)"
    by (simp add: feed_eval)
  have t: "try_decode stub_pydub (output_config ?s) (call_data ?c) = Some [1, 2, 3, 4, 5, 6, 7, 8]"
    by (simp add: feed_eval)
  from feed_success [OF m t] show ?thesis by simp
qed

lemma process_accumulator:
  "(ogg_buffer (snd (process_ogg_stream lib ogg_page s)) = []
      \<and> ogg_pages_count (snd (process_ogg_stream lib ogg_page s)) = 0)
   \<or> (ogg_buffer (snd (process_ogg_stream lib ogg_page s)) = ogg_buffer s @ ogg_page
      \<and> ogg_pages_count (snd (process_ogg_stream lib ogg_page s)) = ogg_pages_count s + 1)"
proof (cases "ogg_pages_count s + 1 < min_pages")
  case True
  then show ?thesis by (simp add: process_small appended_def)
next
  case False
  then have ge: "min_pages \<le> ogg_pages_count s + 1" by simp
  show ?thesis
  proof (cases "try_decode lib (output_config s) (ogg_buffer s @ ogg_page)")
    case None
    from process_failure [OF ge None] show ?thesis
      by (simp add: appended_def)
  next
    case (Some pcm)
    from process_success [OF ge Some] show ?thesis
      by simp
  qed
qed

text \<open>
  C3, as stated, fails on a first page of 50001 bytes: no decode attempt is made (so none
  succeeds), the buffer is longer than 50000 bytes, and the accumulator is not reset.
\<close>

theorem overflow_reset_counterexample:
  "attempts_made refusing_pydub (replicate 50001 0) (new_session default_config) = []
   \<and> 50000 < length (ogg_buffer (snd (process_ogg_stream refusing_pydub (replicate 50001 0)
        (new_session default_config))))
   \<and> ogg_pages_count (snd (process_ogg_stream refusing_pydub (replicate 50001 0)
        (new_session default_config))) = 1"
  by (simp add: process_ogg_stream_def new_session_def min_pages_def attempts_made_def)

text \<open>
  C3, amended. On a call of \<^verbatim>\<open>_process_ogg_stream\<close> that has at least three pages
  accumulated (the new one counted), on which no decode attempt succeeds and the page count
  has reached 8 or the buffer is longer than 50000 bytes, the call answers "not enough data"
  and leaves the buffer empty and the page count 0. On every call the accumulator is
  afterwards either reset as a whole (empty buffer, count 0) or kept as a whole (old buffer
  followed by the page, old count plus one).
\<close>

theorem overflow_reset:
  "(min_pages \<le> ogg_pages_count s + 1
      \<and> (\<forall>c \<in> set (attempts_made lib ogg_page s).
            try_decode lib (output_config s) (call_data c) = None)
      \<and> (max_pages \<le> ogg_pages_count s + 1 \<or> 50000 < length (ogg_buffer s @ ogg_page))
    \<longrightarrow> fst (process_ogg_stream lib ogg_page s) = []
      \<and> ogg_buffer (snd (process_ogg_stream lib ogg_page s)) = []
      \<and> ogg_pages_count (snd (process_ogg_stream lib ogg_page s)) = 0)
   \<and> ((ogg_buffer (snd (process_ogg_stream lib ogg_page s)) = []
        \<and> ogg_pages_count (snd (process_ogg_stream lib ogg_page s)) = 0)
      \<or> (ogg_buffer (snd (process_ogg_stream lib ogg_page s)) = ogg_buffer s @ ogg_page
        \<and> ogg_pages_count (snd (process_ogg_stream lib ogg_page s)) = ogg_pages_count s + 1))"
proof (intro conjI impI)
  assume h: "min_pages \<le> ogg_pages_count s + 1
      \<and> (\<forall>c \<in> set (attempts_made lib ogg_page s).
            try_decode lib (output_config s) (call_data c) = None)
      \<and> (max_pages \<le> ogg_pages_count s + 1 \<or> 50000 < length (ogg_buffer s @ ogg_page))"
  then have ge: "min_pages \<le> ogg_pages_count s + 1" by simp
  have none: "try_decode lib (output_config s) (ogg_buffer s @ ogg_page) = None"
  proof (cases "try_decode lib (output_config s) (ogg_buffer s @ ogg_page)")
    case None
    then show ?thesis .
  next
    case (Some pcm)
    from attempts_success [OF ge Some]
    have "logged (appended s ogg_page) min_pages \<in> set (attempts_made lib ogg_page s)"
      by simp
    with h have "try_decode lib (output_config s)
        (call_data (logged (appended s ogg_page) min_pages)) = None"
      by blast
    with Some show ?thesis by (simp add: logged_def appended_def)
  qed
  from process_failure [OF ge none] h
  show "fst (process_ogg_stream lib ogg_page s) = []"
    and "ogg_buffer (snd (process_ogg_stream lib ogg_page s)) = []"
    and "ogg_pages_count (snd (process_ogg_stream lib ogg_page s)) = 0"
    by simp_all
next
  show "(ogg_buffer (snd (process_ogg_stream lib ogg_page s)) = []
        \<and> ogg_pages_count (snd (process_ogg_stream lib ogg_page s)) = 0)
      \<or> (ogg_buffer (snd (process_ogg_stream lib ogg_page s)) = ogg_buffer s @ ogg_page
        \<and> ogg_pages_count (snd (process_ogg_stream lib ogg_page s)) = ogg_pages_count s + 1)"
    by (rule process_accumulator)
qed


theorem overflow_reset_witness:
  "fst (process_ogg_stream refusing_pydub [8]
          (feed_all refusing_pydub [[1], [2], [3], [4], [5], [6], [7]]
             (new_session default_config))) = []
   \<and> ogg_buffer (snd (process_ogg_stream refusing_pydub [8]
          (feed_all refusing_pydub [[1], [2], [3], [4], [5], [6], [7]]
             (new_session default_config)))) = []
   \<and> ogg_pages_count (snd (process_ogg_stream refusing_pydub [8]
          (feed_all refusing_pydub [[1], [2], [3], [4], [5], [6], [7]]
             (new_session default_config)))) = 0
   \<and> ogg_pages_count (feed_all refusing_pydub [[1], [2], [3], [4], [5], [6], [7]]
             (new_session default_config)) = 7"
proof -
  let ?s = "feed_all refusing_pydub [[1], [2], [3], [4], [5], [6], [7]]
             (new_session default_config)"
  have n: "try_decode refusing_pydub cfg buf = None" for cfg buf
    by (simp add: try_decode_def refusing_pydub_def)
  have c: "ogg_pages_count ?s = 7"
    by (simp add: process_ogg_stream_def new_session_def min_pages_def max_pages_def n Let_def)
  then have "min_pages \<le> ogg_pages_count ?s + 1 \<and>
      (\<forall>c \<in> set (attempts_made refusing_pydub [8] ?s).
            try_decode refusing_pydub (output_config ?s) (call_data c) = None)
      \<and> (max_pages \<le> ogg_pages_count ?s + 1 \<or> 50000 < length (ogg_buffer ?s @ [8]))"
    by (simp add: n min_pages_def max_pages_def)
  with overflow_reset [of ?s refusing_pydub "[8]"] c show ?thesis
    by blast
qed

lemma process_calls:
  "decode_calls (snd (process_ogg_stream lib ogg_page s)) =
     decode_calls s @ attempts_made lib ogg_page s"
proof (cases "ogg_pages_count s + 1 < min_pages")
  case True
  then show ?thesis by (simp add: attempts_made_def process_small appended_def)
next
  case False
  then have ge: "min_pages \<le> ogg_pages_count s + 1" by simp
  show ?thesis
  proof (cases "try_decode lib (output_config s) (ogg_buffer s @ ogg_page)")
    case None
    from process_failure [OF ge None] show ?thesis
      by (simp add: attempts_made_def)
  next
    case (Some pcm)
    from process_success [OF ge Some] show ?thesis
      by (simp add: attempts_made_def)
  qed
qed

lemma feed_all_calls:
  "\<exists>new. decode_calls (feed_all lib pages s) = decode_calls s @ new
     \<and> (\<forall>c \<in> set new. min_pages \<le> call_pages c \<and> min_pages \<le> call_window c)"
proof (induction pages arbitrary: s)
  case Nil
  show ?case by simp
next
  case (Cons p pages)
  let ?s1 = "snd (process_ogg_stream lib p s)"
  from Cons.IH [of ?s1] obtain new where
    new: "decode_calls (feed_all lib pages ?s1) = decode_calls ?s1 @ new"
      "\<forall>c \<in> set new. min_pages \<le> call_pages c \<and> min_pages \<le> call_window c"
    by blast
  have first: "\<forall>c \<in> set (attempts_made lib p s).
      min_pages \<le> call_pages c \<and> min_pages \<le> call_window c"
    using attempts_data [of _ lib p s] by auto
  have "decode_calls (feed_all lib (p # pages) s) =
      decode_calls s @ (attempts_made lib p s @ new)"
    using new(1) by (simp add: process_calls)
  moreover have "\<forall>c \<in> set (attempts_made lib p s @ new).
      min_pages \<le> call_pages c \<and> min_pages \<le> call_window c"
    using first new(2) by auto
  ultimately show ?case by blast
qed

text \<open>
  C6. Over any sequence of calls of \<^verbatim>\<open>_process_ogg_stream\<close>, every decode call that is
  made sees at least three accumulated pages (and a loop variable of at least three). A call
  that brings the page count to less than three answers "not enough data", makes no decode
  call and keeps the pages, the new one appended, in the buffer.
\<close>

theorem no_early_decode:
  "(\<exists>new. decode_calls (feed_all lib pages s) = decode_calls s @ new
      \<and> (\<forall>c \<in> set new. min_pages \<le> call_pages c \<and> min_pages \<le> call_window c))
   \<and> (ogg_pages_count s + 1 < min_pages \<longrightarrow>
        process_ogg_stream lib ogg_page s = ([], appended s ogg_page)
      \<and> attempts_made lib ogg_page s = [])"
  using feed_all_calls [of lib pages s] process_small [of s lib ogg_page]
    attempts_small [of s lib ogg_page]
  by blast

text \<open>
  C9. Within one call, every decode attempt is handed the whole buffer (the old buffer
  followed by the new page), whatever the loop variable. The method returns the same bytes
  and leaves the same session, the record of decode calls apart, as the variant with one
  decode of the whole buffer in place of the loop; and if any attempt succeeds, the only
  attempt made is the first one.
\<close>

theorem attempts_on_whole_buffer:
  "(\<forall>c \<in> set (attempts_made lib ogg_page s). call_data c = ogg_buffer s @ ogg_page)
   \<and> fst (process_ogg_stream lib ogg_page s) = fst (process_ogg_stream_single lib ogg_page s)
   \<and> (snd (process_ogg_stream lib ogg_page s))\<lparr>decode_calls := []\<rparr>
       = (snd (process_ogg_stream_single lib ogg_page s))\<lparr>decode_calls := []\<rparr>
   \<and> ((\<exists>c \<in> set (attempts_made lib ogg_page s).
          try_decode lib (output_config s) (call_data c) \<noteq> None)
       \<longrightarrow> attempts_made lib ogg_page s = [logged (appended s ogg_page) min_pages])"
proof (intro conjI)
  show "\<forall>c \<in> set (attempts_made lib ogg_page s). call_data c = ogg_buffer s @ ogg_page"
    using attempts_data [of _ lib ogg_page s] by blast
next
  show "(\<exists>c \<in> set (attempts_made lib ogg_page s).
          try_decode lib (output_config s) (call_data c) \<noteq> None)
       \<longrightarrow> attempts_made lib ogg_page s = [logged (appended s ogg_page) min_pages]"
  proof
    assume "\<exists>c \<in> set (attempts_made lib ogg_page s).
          try_decode lib (output_config s) (call_data c) \<noteq> None"
    then obtain c pcm where c: "c \<in> set (attempts_made lib ogg_page s)"
      and "try_decode lib (output_config s) (call_data c) = Some pcm"
      by auto
    with attempts_data [OF c]
    have "min_pages \<le> ogg_pages_count s + 1"
      and "try_decode lib (output_config s) (ogg_buffer s @ ogg_page) = Some pcm"
      by simp_all
    then show "attempts_made lib ogg_page s = [logged (appended s ogg_page) min_pages]"
      by (rule attempts_success)
  qed
next
  show "fst (process_ogg_stream lib ogg_page s) = fst (process_ogg_stream_single lib ogg_page s)"
  proof (cases "ogg_pages_count s + 1 < min_pages")
    case True
    then show ?thesis
      by (simp add: process_small process_ogg_stream_single_def Let_def)
  next
    case False
    then have ge: "min_pages \<le> ogg_pages_count s + 1" by simp
    show ?thesis
    proof (cases "try_decode lib (output_config s) (ogg_buffer s @ ogg_page)")
      case None
      from process_failure [OF ge None] None ge show ?thesis
        by (simp add: process_ogg_stream_single_def Let_def)
    next
      case (Some pcm)
      from process_success [OF ge Some] Some ge show ?thesis
        by (simp add: process_ogg_stream_single_def Let_def)
    qed
  qed
next
  show "(snd (process_ogg_stream lib ogg_page s))\<lparr>decode_calls := []\<rparr>
       = (snd (process_ogg_stream_single lib ogg_page s))\<lparr>decode_calls := []\<rparr>"
  proof (cases "ogg_pages_count s + 1 < min_pages")
    case True
    then show ?thesis
      by (simp add: process_small process_ogg_stream_single_def appended_def Let_def)
  next
    case False
    then have ge: "min_pages \<le> ogg_pages_count s + 1" by simp
    show ?thesis
    proof (cases "try_decode lib (output_config s) (ogg_buffer s @ ogg_page)")
      case None
      from process_failure [OF ge None] None ge show ?thesis
        by (simp add: process_ogg_stream_single_def appended_def Let_def)
    next
      case (Some pcm)
      from process_success [OF ge Some] Some ge show ?thesis
        by (simp add: process_ogg_stream_single_def appended_def Let_def)
    qed
  qed
qed

text \<open>
  C10. A call that brings the page count to less than three leaves the accumulator as it
  is (the page appended and counted) and answers "not enough data", also when the buffer
  is then longer than 50000 bytes: the cap is not looked at on such a call.
\<close>

theorem cap_needs_three_pages:
  assumes "ogg_pages_count s + 1 < min_pages"
  shows "process_ogg_stream lib ogg_page s = ([], appended s ogg_page)
       \<and> ogg_buffer (snd (process_ogg_stream lib ogg_page s)) = ogg_buffer s @ ogg_page
       \<and> ogg_pages_count (snd (process_ogg_stream lib ogg_page s)) = ogg_pages_count s + 1
       \<and> (50000 < length (ogg_buffer s @ ogg_page) \<longrightarrow>
            fst (process_ogg_stream lib ogg_page s) = []
          \<and> 50000 < length (ogg_buffer (snd (process_ogg_stream lib ogg_page s))))"
  using process_small [OF assms, of lib ogg_page] by (simp add: appended_def)

theorem cap_needs_three_pages_witness:
  "ogg_pages_count (new_session default_config) + 1 < min_pages
   \<and> fst (process_ogg_stream stub_pydub (OggS @ replicate 50001 0)
        (new_session default_config)) = []
   \<and> length (ogg_buffer (snd (process_ogg_stream stub_pydub (OggS @ replicate 50001 0)
        (new_session default_config)))) = 50005"
proof -
  have a: "ogg_pages_count (new_session default_config) + 1 < min_pages"
    by (simp add: new_session_def min_pages_def)
  from cap_needs_three_pages [OF a, of stub_pydub "OggS @ replicate 50001 0"] a
  show ?thesis by (simp add: new_session_def OggS_def appended_def)
qed


theorem no_early_decode_witness:
  "ogg_pages_count (new_session default_config) + 1 < min_pages
   \<and> process_ogg_stream stub_pydub (OggS @ [1]) (new_session default_config)
       = ([], appended (new_session default_config) (OggS @ [1]))
   \<and> attempts_made stub_pydub (OggS @ [1]) (new_session default_config) = []
   \<and> decode_calls (feed_all stub_pydub [OggS @ [1], [2, 3], [4, 5, 6, 7, 8]]
        (new_session default_config))
       = [\<lparr>call_window = 3, call_pages = 3,
           call_data = OggS @ [1, 2, 3, 4, 5, 6, 7, 8]\<rparr>]"
proof -
  have a: "ogg_pages_count (new_session default_config) + 1 < min_pages"
    by (simp add: new_session_def min_pages_def)
  have b: "decode_calls (feed_all stub_pydub [OggS @ [1], [2, 3], [4, 5, 6, 7, 8]]
        (new_session default_config))
       = [\<lparr>call_window = 3, call_pages = 3,
           call_data = OggS @ [1, 2, 3, 4, 5, 6, 7, 8]\<rparr>]"
    by (simp add: feed_eval)
  from no_early_decode [of stub_pydub "[OggS @ [1], [2, 3], [4, 5, 6, 7, 8]]"
      "new_session default_config" "OggS @ [1]"] a b
  show ?thesis by blast
qed

theorem attempts_on_whole_buffer_witness:
  "attempts_made stub_pydub [4, 5, 6, 7, 8]
      (feed_all stub_pydub [OggS @ [1], [2, 3]] (new_session default_config))
     = [\<lparr>call_window = 3, call_pages = 3, call_data = OggS @ [1, 2, 3, 4, 5, 6, 7, 8]\<rparr>]
   \<and> fst (process_ogg_stream stub_pydub [4, 5, 6, 7, 8]
        (feed_all stub_pydub [OggS @ [1], [2, 3]] (new_session default_config)))
     = fst (process_ogg_stream_single stub_pydub [4, 5, 6, 7, 8]
        (feed_all stub_pydub [OggS @ [1], [2, 3]] (new_session default_config)))"
proof -
  let ?s = "feed_all stub_pydub [OggS @ [1], [2, 3]] (new_session default_config)"
  let ?c = "\<lparr>call_window = 3, call_pages = 3, call_data = OggS @ [1, 2, 3, 4, 5, 6, 7, 8]\<rparr>"
  have m: "?c \<in> set (attempts_made stub_pydub [4, 5, 6, 7, 8] ?s)"
    by (simp add: feed_eval)
  have t: "try_decode stub_pydub (output_config ?s) (call_data ?c) \<noteq> None"
    by (simp add: feed_eval)
  have l: "logged (appended ?s [4, 5, 6, 7, 8]) min_pages = ?c"
    by (simp add: feed_eval logged_def appended_def)
  from m t have "\<exists>c \<in> set (attempts_made stub_pydub [4, 5, 6, 7, 8] ?s).
      try_decode stub_pydub (output_config ?s) (call_data c) \<noteq> None"
    by blast
  with attempts_on_whole_buffer [of stub_pydub "[4, 5, 6, 7, 8]" ?s] l
  show ?thesis by simp
qed

section \<open>Properties of the dispatch and of the loops\<close>

lemma drain_queue_empty: "drain_queue queue = []"
  by (induction queue) simp_all

text \<open>
  C7. A full response with event code 450 (and, as every such frame, a session id) empties
  the playback queue: \<^verbatim>\<open>handle_server_response\<close> returns with a session that differs
  from the old one in the queue only, and the queue holds 0 chunks. The drain is taken
  without a producer running at the same time.
\<close>

theorem flush_empties_queue:
  assumes "map_of response ''message_type'' = Some (PyStr ''SERVER_FULL_RESPONSE'')"
    and "map_of response ''event'' = Some (PyInt 450)"
    and "map_of response ''session_id'' = Some session_id"
  shows "\<exists>s'. handle_server_response lib cfg response s = Inr s'
            \<and> s' = s\<lparr>audio_queue := []\<rparr> \<and> length (audio_queue s') = 0"
proof -
  from assms(1) have "response \<noteq> []" by auto
  with assms have "handle_server_response lib cfg response s = Inr (s\<lparr>audio_queue := []\<rparr>)"
    by (simp add: handle_server_response_def drain_queue_empty)
  then show ?thesis by simp
qed

theorem flush_empties_queue_witness:
  "handle_server_response stub_pydub default_config flush_frame
     ((new_session default_config)\<lparr>audio_queue := [[1], [2], [3], [4], [5]]\<rparr>)
   = Inr (new_session default_config)"
proof -
  have a: "map_of flush_frame ''message_type'' = Some (PyStr ''SERVER_FULL_RESPONSE'')"
    and b: "map_of flush_frame ''event'' = Some (PyInt 450)"
    and c: "map_of flush_frame ''session_id'' = Some (PyStr ''s-1'')"
    by (simp_all add: flush_frame_def)
  from flush_empties_queue [OF a b c, of stub_pydub default_config
      "(new_session default_config)\<lparr>audio_queue := [[1], [2], [3], [4], [5]]\<rparr>"]
  show ?thesis by (simp add: new_session_def)
qed

text \<open>
  C1, as stated, fails: in a running session an error frame ends the receive loop and
  nothing else. \<^verbatim>\<open>is_running\<close> and \<^verbatim>\<open>is_recording\<close> stay set, and the capture loop
  reads and sends the next chunk and goes on.
\<close>

theorem error_frame_counterexample:
  "is_running (new_session default_config)
   \<and> is_recording (new_session default_config)
   \<and> receive_loop stub_pydub default_config [Frame error_frame] (new_session default_config)
       = (Stopped, new_session default_config)
   \<and> process_microphone_input [Forwarded [1, 2]]
        (snd (receive_loop stub_pydub default_config [Frame error_frame]
               (new_session default_config)))
       = (Looping, [[1, 2]])"
  by (simp add: handle_server_response_def error_frame_def new_session_def)

text \<open>
  C1, amended. On a response of type \<^verbatim>\<open>SERVER_ERROR\<close> the method
  \<^verbatim>\<open>handle_server_response\<close> raises, and the receive loop, which catches the exception,
  is left: the receive activity halts, whatever would have been delivered next. The session
  object, its flags included, is as it was before the frame.
\<close>

theorem error_frame_stops_receiving:
  assumes "map_of response ''message_type'' = Some (PyStr ''SERVER_ERROR'')"
  shows "handle_server_response lib cfg response s =
           Inl (case map_of response ''payload_msg'' of
                  None \<Rightarrow> KeyError ''payload_msg'' | Some payload_msg \<Rightarrow> ServerError)
       \<and> receive_loop lib cfg (Frame response # rest) s = (Stopped, s)"
proof -
  from assms have "response \<noteq> []" by auto
  with assms have "handle_server_response lib cfg response s =
           Inl (case map_of response ''payload_msg'' of
                  None \<Rightarrow> KeyError ''payload_msg'' | Some payload_msg \<Rightarrow> ServerError)"
    by (simp add: handle_server_response_def split: option.split)
  then show ?thesis by simp
qed

theorem error_frame_stops_receiving_witness:
  "handle_server_response stub_pydub default_config error_frame (new_session default_config)
     = Inl ServerError
   \<and> receive_loop stub_pydub default_config [Frame error_frame, Frame flush_frame]
       (new_session default_config)
     = (Stopped, new_session default_config)"
proof -
  have a: "map_of error_frame ''message_type'' = Some (PyStr ''SERVER_ERROR'')"
    by (simp add: error_frame_def)
  from error_frame_stops_receiving [OF a, of stub_pydub default_config
      "new_session default_config" "[Frame flush_frame]"]
  show ?thesis by (simp add: error_frame_def)
qed

section \<open>Properties of the session's start and end\<close>
lemma device_events_append:
  "device_events (xs @ ys) = device_events xs @ device_events ys"
  by (induction xs rule: device_events.induct) simp_all

lemma device_events_map_Device: "device_events (map Device ds) = ds"
  by (induction ds) simp_all

lemma run_statements_no_device:
  "(\<forall>ev out. Call ev out \<in> set stmts \<longrightarrow> device_events [ev] = []) \<Longrightarrow>
   device_events (snd (run_statements stmts)) = []"
proof (induction stmts rule: run_statements.induct)
  case 1
  show ?case by simp
next
  case (2 ev out rest)
  from "2.prems" have ev: "device_events [ev] = []" by auto
  then have evs: "device_events (ev # evs) = device_events evs" for evs
    using device_events_append [of "[ev]" evs] by simp
  show ?case
  proof (cases out)
    case Returns
    with "2.IH" "2.prems" have "device_events (snd (run_statements rest)) = []" by auto
    with Returns evs show ?thesis by (simp add: case_prod_unfold Let_def)
  next
    case Raises
    with ev show ?thesis by simp
  next
    case Cancelled
    with ev show ?thesis by simp
  qed
next
  case (3 rounds rest)
  then show ?case
    by (auto split: option.splits outcome.splits)
qed

lemma start_body_no_device:
  "device_events (snd (run_statements (start_body run))) = []"
  by (rule run_statements_no_device) (auto simp: start_body_def)

lemma count_cleanup: "count_list (cleanup dev) Terminate = 1"
  by (simp add: cleanup_def split: option.split)

lemma count_device_events:
  "count_list evs (Device d) = count_list (device_events evs) d"
  by (induction evs rule: device_events.induct) simp_all

lemma start_cases:
  assumes "start run = Some (res, evs)"
  shows "evs = snd (run_statements (start_body run)) @ map Device (cleanup (device_at_exit run))"
  using assms
  by (auto simp: start_def split: prod.splits option.splits outcome.splits)

lemma run_statements_ends:
  "(\<forall>rounds. Poll rounds \<in> set stmts \<longrightarrow> poll_while rounds \<noteq> None) \<Longrightarrow>
   fst (run_statements stmts) \<noteq> None"
proof (induction stmts rule: run_statements.induct)
  case 1
  show ?case by simp
next
  case (2 ev out rest)
  then show ?case by (cases out) (auto simp: case_prod_unfold Let_def)
next
  case (3 rounds rest)
  then show ?case by (auto split: option.splits outcome.splits)
qed

text \<open>
  A polling loop whose flag stays set and whose sleeps return is never left, and then
  \<^verbatim>\<open>start\<close> does not end: no statement after the loop is reached, \<^verbatim>\<open>cleanup\<close>
  included.
\<close>

lemma poll_while_stuck: "poll_while (map (\<lambda>n. (True, Returns)) ns) = None"
  by (induction ns) simp_all

lemma start_stuck:
  assumes "connect_outcome run = Returns"
    and "running_rounds run = map (\<lambda>n. (True, Returns)) ns"
  shows "start run = None"
  using assms by (simp add: start_def start_body_def poll_while_stuck)

text \<open>
  C8. Whenever \<^verbatim>\<open>start\<close> ends, by running to completion, after an exception raised in
  its body, or by cancellation, the device calls it has made are those of one run of
  \<^verbatim>\<open>cleanup\<close> and they come last: each open stream stopped and closed, then the device
  subsystem terminated, once. And \<^verbatim>\<open>start\<close> does end when each of its two polling loops
  is left.
\<close>

theorem device_released_once:
  "(\<forall>res evs. start run = Some (res, evs) \<longrightarrow>
       (\<exists>before. evs = before @ map Device (cleanup (device_at_exit run))
                \<and> device_events before = [])
     \<and> device_events evs = cleanup (device_at_exit run)
     \<and> count_list evs (Device Terminate) = 1)
   \<and> (poll_while (running_rounds run) \<noteq> None
      \<and> poll_while (map (\<lambda>(finished, slept). (\<not> finished, slept)) (finished_rounds run))
          \<noteq> None
      \<longrightarrow> start run \<noteq> None)"
proof (intro conjI allI impI)
  fix res evs
  assume "start run = Some (res, evs)"
  then have e: "evs = snd (run_statements (start_body run))
      @ map Device (cleanup (device_at_exit run))"
    by (rule start_cases)
  with start_body_no_device [of run]
  show "\<exists>before. evs = before @ map Device (cleanup (device_at_exit run))
                \<and> device_events before = []"
    by blast
  from e start_body_no_device [of run]
  show d: "device_events evs = cleanup (device_at_exit run)"
    by (simp add: device_events_append device_events_map_Device)
  show "count_list evs (Device Terminate) = 1"
    by (simp add: count_device_events d count_cleanup)
next
  assume "poll_while (running_rounds run) \<noteq> None
      \<and> poll_while (map (\<lambda>(finished, slept). (\<not> finished, slept)) (finished_rounds run))
          \<noteq> None"
  then have "fst (run_statements (start_body run)) \<noteq> None"
    by (intro run_statements_ends) (auto simp: start_body_def)
  then show "start run \<noteq> None"
    by (auto simp: start_def split: prod.splits option.splits outcome.splits)
qed


theorem device_released_once_witness:
  "start normal_run =
     Some (Returns, [Connect, CreateTasks, FinishSession, FinishConnection, Pause,
       CloseClient, ReadLogid, Device (StopStream InputStream),
       Device (CloseStream InputStream), Device (StopStream OutputStream),
       Device (CloseStream OutputStream), Device Terminate])
   \<and> start failing_run =
     Some (Returns, [Connect, CreateTasks, FinishSession, Device (StopStream InputStream),
       Device (CloseStream InputStream), Device (StopStream OutputStream),
       Device (CloseStream OutputStream), Device Terminate])
   \<and> start cancelled_run =
     Some (Cancelled, [Connect, CreateTasks, Device (StopStream OutputStream),
       Device (CloseStream OutputStream), Device Terminate])
   \<and> device_events (snd (the (start normal_run))) = cleanup (device_at_exit normal_run)
   \<and> device_events (snd (the (start failing_run))) = cleanup (device_at_exit failing_run)
   \<and> device_events (snd (the (start cancelled_run))) = cleanup (device_at_exit cancelled_run)"
proof -
  have n: "start normal_run =
     Some (Returns, [Connect, CreateTasks, FinishSession, FinishConnection, Pause,
       CloseClient, ReadLogid, Device (StopStream InputStream),
       Device (CloseStream InputStream), Device (StopStream OutputStream),
       Device (CloseStream OutputStream), Device Terminate])"
    by (simp add: start_def start_body_def normal_run_def cleanup_def)
  have f: "start failing_run =
     Some (Returns, [Connect, CreateTasks, FinishSession, Device (StopStream InputStream),
       Device (CloseStream InputStream), Device (StopStream OutputStream),
       Device (CloseStream OutputStream), Device Terminate])"
    by (simp add: start_def start_body_def failing_run_def normal_run_def cleanup_def)
  have c: "start cancelled_run =
     Some (Cancelled, [Connect, CreateTasks, Device (StopStream OutputStream),
       Device (CloseStream OutputStream), Device Terminate])"
    by (simp add: start_def start_body_def cancelled_run_def normal_run_def cleanup_def)
  from device_released_once [of normal_run] n
  have "device_events (snd (the (start normal_run))) = cleanup (device_at_exit normal_run)"
    by simp
  moreover from device_released_once [of failing_run] f
  have "device_events (snd (the (start failing_run))) = cleanup (device_at_exit failing_run)"
    by simp
  moreover from device_released_once [of cancelled_run] c
  have "device_events (snd (the (start cancelled_run))) = cleanup (device_at_exit cancelled_run)"
    by simp
  ultimately show ?thesis using n f c by simp
qed

end
